theory Spec2Isabelle
  imports Main "HOL-Library.Word"
begin

section \<open>The ext\_proc messages exchanged with the proxy\<close>

text \<open>
  The handler of \<^verbatim>\<open>main.go\<close> speaks Envoy's external-processing protocol. The
  generated protobuf structs are modelled as records and their \<^verbatim>\<open>oneof\<close> fields as
  datatypes. A pointer field that may be nil is an \<open>option\<close>. Fields of a message that
  the handler never reads and never assigns are left out: they keep Go's zero value in
  every message the handler builds. A byte slice is a \<open>string\<close> (a list of 8-bit
  characters).
\<close>

type_synonym bytes = string

record HttpHeaders =
  Headers :: "(string \<times> string) list"
  HeadersEndOfStream :: bool

record HttpBody =
  Body :: bytes
  EndOfStream :: bool

record HttpTrailers =
  Trailers :: "(string \<times> string) list"

text \<open>
  The \<^verbatim>\<open>Request\<close> oneof of a \<^verbatim>\<open>ProcessingRequest\<close>. The type switch of
  \<^verbatim>\<open>Process\<close> has four cases; the trailers variants and the unset oneof (a nil
  interface) reach its \<^verbatim>\<open>default\<close> arm.
\<close>

datatype ProcessingRequest_Request =
    ProcessingRequest_RequestHeaders HttpHeaders
  | ProcessingRequest_RequestBody HttpBody
  | ProcessingRequest_ResponseHeaders HttpHeaders
  | ProcessingRequest_ResponseBody HttpBody
  | ProcessingRequest_RequestTrailers HttpTrailers
  | ProcessingRequest_ResponseTrailers HttpTrailers
  | ProcessingRequest_unset

record ProcessingRequest =
  Request :: ProcessingRequest_Request

datatype HeaderSendMode = ProcessingMode_DEFAULT | ProcessingMode_SEND | ProcessingMode_SKIP

datatype BodySendMode =
  ProcessingMode_NONE | ProcessingMode_STREAMED | ProcessingMode_BUFFERED
  | ProcessingMode_BUFFERED_PARTIAL

record ProcessingMode =
  RequestHeaderMode :: HeaderSendMode
  ResponseHeaderMode :: HeaderSendMode
  RequestBodyMode :: BodySendMode
  ResponseBodyMode :: BodySendMode
  RequestTrailerMode :: HeaderSendMode
  ResponseTrailerMode :: HeaderSendMode

record HeaderValue =
  Key :: string
  Value :: string

text \<open>
  \<^verbatim>\<open>Append\<close> is the protocol's optional flag asking the proxy to append the value to
  the values a header already has; the protocol reads an unset flag in an
  external-processing response as false, that is, the value replaces them.
\<close>

record HeaderValueOption =
  Header :: "HeaderValue option"
  Append :: "bool option"

record HeaderMutation =
  SetHeaders :: "HeaderValueOption list"
  RemoveHeaders :: "string list"

datatype CommonResponse_ResponseStatus =
  CommonResponse_CONTINUE | CommonResponse_CONTINUE_AND_REPLACE

record CommonResponse =
  Status :: CommonResponse_ResponseStatus
  HeaderMutation :: "HeaderMutation option"
  BodyMutation :: "bytes option"
  ClearRouteCache :: bool

record HeadersResponse =
  HeadersResponse_Response :: "CommonResponse option"

record BodyResponse =
  BodyResponse_Response :: "CommonResponse option"

datatype ProcessingResponse_Response =
    ProcessingResponse_RequestHeaders HeadersResponse
  | ProcessingResponse_RequestBody BodyResponse
  | ProcessingResponse_ResponseHeaders HeadersResponse
  | ProcessingResponse_ResponseBody BodyResponse
  | ProcessingResponse_unset

record ProcessingResponse =
  Response :: ProcessingResponse_Response
  ModeOverride :: "ProcessingMode option"

section \<open>The usage struct and its decimal rendering\<close>

text \<open>
  \<^verbatim>\<open>openAIResp\<close> is the anonymous struct that \<^verbatim>\<open>Process\<close> declares before calling
  \<^verbatim>\<open>json.Unmarshal\<close>. Its fields are Go \<^verbatim>\<open>int\<close>s; the Dockerfile builds for
  \<^verbatim>\<open>GOARCH=amd64\<close>, where \<^verbatim>\<open>int\<close> has 64 bits, read as two's complement.
\<close>

type_synonym go_int = "64 word"

record Usage =
  PromptTokens :: go_int
  TotalTokens :: go_int
  CompletionTokens :: go_int

record openAIResp =
  Usage :: Usage

definition zero_openAIResp :: openAIResp where
  "zero_openAIResp =
     \<lparr>Usage = \<lparr>PromptTokens = 0, TotalTokens = 0, CompletionTokens = 0\<rparr>\<rparr>"

definition digit_char :: "nat \<Rightarrow> char" where
  "digit_char d = ''0123456789'' ! d"

text \<open>The decimal digits of a natural number, most significant first, no leading zero.\<close>

function format_decimal :: "nat \<Rightarrow> string" where
  "format_decimal n =
     (if n < 10 then [digit_char n] else format_decimal (n div 10) @ [digit_char (n mod 10)])"
  by pat_completeness auto
termination
  by (relation "measure id") auto

declare format_decimal.simps [simp del]

text \<open>\<^verbatim>\<open>strconv.Itoa\<close>: a minus sign and the digits of the magnitude when negative.\<close>

definition strconv_Itoa :: "go_int \<Rightarrow> string" where
  "strconv_Itoa i =
     (if sint i < 0 then CHR ''-'' # format_decimal (nat (- sint i))
      else format_decimal (nat (sint i)))"

section \<open>Go's JSON decoder, as far as this struct needs it\<close>

datatype json_error = SyntaxError | UnmarshalTypeError string

text \<open>
  \<^verbatim>\<open>json.Unmarshal\<close> belongs to Go's standard library. It first checks that the
  whole input is one JSON text (a syntax error otherwise, and nothing is stored), then
  walks the text and stores what fits the target struct; a value of the wrong kind is
  recorded as the call's error while decoding goes on. The model follows the library's
  scanner states, its key matching and its integer conversion.
\<close>

subsection \<open>Bytes\<close>

definition byte :: "char \<Rightarrow> nat" where
  "byte c = of_char c"

definition is_space :: "char \<Rightarrow> bool" where
  "is_space c = (c = CHR '' '' \<or> c = CHR 0x09 \<or> c = CHR 0x0D \<or> c = CHR 0x0A)"

definition is_digit :: "char \<Rightarrow> bool" where
  "is_digit c = (48 \<le> byte c \<and> byte c \<le> 57)"

definition hex_value :: "char \<Rightarrow> nat option" where
  "hex_value c =
     (if 48 \<le> byte c \<and> byte c \<le> 57 then Some (byte c - 48)
      else if 97 \<le> byte c \<and> byte c \<le> 102 then Some (byte c - 97 + 10)
      else if 65 \<le> byte c \<and> byte c \<le> 70 then Some (byte c - 65 + 10)
      else None)"

text \<open>\<^verbatim>\<open>getu4\<close>: the value of four hexadecimal digits.\<close>

definition getu4 :: "string \<Rightarrow> nat option" where
  "getu4 s =
     (case s of
        a # b # c # d # _ \<Rightarrow>
          (case (hex_value a, hex_value b, hex_value c, hex_value d) of
             (Some x, Some y, Some z, Some w) \<Rightarrow> Some (((x * 16 + y) * 16 + z) * 16 + w)
           | _ \<Rightarrow> None)
      | _ \<Rightarrow> None)"

definition is_cont :: "char \<Rightarrow> bool" where
  "is_cont c = (128 \<le> byte c \<and> byte c \<le> 191)"

text \<open>
  \<^verbatim>\<open>utf8.DecodeRune\<close>, as far as the width goes: the number of bytes of the
  well-formed UTF-8 sequence at the head of the input, 0 when there is none.
\<close>

definition utf8_width :: "string \<Rightarrow> nat" where
  "utf8_width s =
     (case s of
        [] \<Rightarrow> 0
      | b0 # r \<Rightarrow>
          (let x = byte b0;
               lo = (if x = 224 then 160 else if x = 240 then 144 else 128);
               hi = (if x = 237 then 159 else if x = 244 then 143 else 191);
               n = (if 194 \<le> x \<and> x \<le> 223 then 2
                    else if 224 \<le> x \<and> x \<le> 239 then 3
                    else if 240 \<le> x \<and> x \<le> 244 then 4 else 0)
           in if n = 0 \<or> length r < n - 1 then 0
              else if lo \<le> byte (hd r) \<and> byte (hd r) \<le> hi
                      \<and> list_all is_cont (take (n - 2) (tl r)) then n
              else 0))"

definition replacement_char :: string where
  "replacement_char = [CHR 0xEF, CHR 0xBF, CHR 0xBD]"

text \<open>\<^verbatim>\<open>utf8.EncodeRune\<close>.\<close>

definition utf8_encode :: "nat \<Rightarrow> string" where
  "utf8_encode r =
     (if r < 128 then [char_of r]
      else if r < 2048 then [char_of (192 + r div 64), char_of (128 + r mod 64)]
      else if (55296 \<le> r \<and> r \<le> 57343) \<or> 1114111 < r then replacement_char
      else if r < 65536 then
        [char_of (224 + r div 4096), char_of (128 + (r div 64) mod 64), char_of (128 + r mod 64)]
      else
        [char_of (240 + r div 262144), char_of (128 + (r div 4096) mod 64),
         char_of (128 + (r div 64) mod 64), char_of (128 + r mod 64)])"

subsection \<open>Tokens\<close>

datatype token =
    T_begin_object | T_end_object | T_begin_array | T_end_array | T_colon | T_comma
  | T_string string | T_number string | T_true | T_false | T_null

definition simple_escape :: "char \<Rightarrow> char option" where
  "simple_escape e =
     (if e = CHR 0x22 \<or> e = CHR 0x5C \<or> e = CHR ''/'' then Some e
      else if e = CHR ''b'' then Some (CHR 0x08)
      else if e = CHR ''f'' then Some (CHR 0x0C)
      else if e = CHR ''n'' then Some (CHR 0x0A)
      else if e = CHR ''r'' then Some (CHR 0x0D)
      else if e = CHR ''t'' then Some (CHR 0x09)
      else None)"

definition emit :: "string \<Rightarrow> nat \<Rightarrow> (string \<times> nat) option \<Rightarrow> (string \<times> nat) option" where
  "emit out k rest = map_option (\<lambda>(s, n). (out @ s, n + k)) rest"

text \<open>
  The second rune of a \<^verbatim>\<open>\u\<close> escape pair, when the six bytes after a high
  surrogate \<open>r1\<close> are a \<^verbatim>\<open>\u\<close> escape of a low surrogate (\<^verbatim>\<open>utf16.DecodeRune\<close>).
\<close>

definition surrogate_pair :: "nat \<Rightarrow> string \<Rightarrow> nat option" where
  "surrogate_pair r1 s =
     (case s of
        bs # u # t \<Rightarrow>
          (if bs = CHR 0x5C \<and> u = CHR ''u'' then
             (case getu4 t of
                Some r2 \<Rightarrow>
                  (if 55296 \<le> r1 \<and> r1 < 56320 \<and> 56320 \<le> r2 \<and> r2 < 57344
                   then Some ((r1 - 55296) * 1024 + (r2 - 56320) + 65536) else None)
              | None \<Rightarrow> None)
           else None)
      | _ \<Rightarrow> None)"

text \<open>
  A string literal after its opening quote: the scanner's \<^verbatim>\<open>stateInString\<close> and
  \<^verbatim>\<open>stateInStringEsc\<close> accept it, \<^verbatim>\<open>unquoteBytes\<close> gives its content. The result is
  the content and the number of bytes read, closing quote included; \<open>None\<close> is the
  scanner's syntax error.
\<close>

fun scan_string :: "string \<Rightarrow> (string \<times> nat) option" where
  "scan_string [] = None"
| "scan_string (c # cs) =
     (if c = CHR 0x22 then Some ([], 1)
      else if c = CHR 0x5C then
        (case cs of
           [] \<Rightarrow> None
         | e # cs' \<Rightarrow>
             (if e = CHR ''u'' then
                (case getu4 cs' of
                   None \<Rightarrow> None
                 | Some r \<Rightarrow>
                     (if 55296 \<le> r \<and> r \<le> 57343 then
                        (case surrogate_pair r (drop 4 cs') of
                           Some dec \<Rightarrow> emit (utf8_encode dec) 12 (scan_string (drop 10 cs'))
                         | None \<Rightarrow> emit replacement_char 6 (scan_string (drop 4 cs')))
                      else emit (utf8_encode r) 6 (scan_string (drop 4 cs'))))
              else
                (case simple_escape e of
                   None \<Rightarrow> None
                 | Some b \<Rightarrow> emit [b] 2 (scan_string cs'))))
      else if byte c < 32 then None
      else if byte c < 128 then emit [c] 1 (scan_string cs)
      else
        (let n = utf8_width (c # cs)
         in if n = 0 then emit replacement_char 1 (scan_string cs)
            else emit (c # take (n - 1) cs) n (scan_string (drop (n - 1) cs))))"

text \<open>
  A number after its first byte (\<^verbatim>\<open>stateNeg\<close>, \<^verbatim>\<open>state0\<close>, \<^verbatim>\<open>state1\<close>,
  \<^verbatim>\<open>stateDot\<close>, \<^verbatim>\<open>stateDot0\<close>, \<^verbatim>\<open>stateE\<close>, \<^verbatim>\<open>stateESign\<close>, \<^verbatim>\<open>stateE0\<close>): the
  number of further bytes that belong to it.
\<close>

definition count_digits :: "string \<Rightarrow> nat" where
  "count_digits s = length (takeWhile is_digit s)"

definition is_exp_mark :: "char \<Rightarrow> bool" where
  "is_exp_mark c = (c = CHR ''e'' \<or> c = CHR ''E'')"

definition scan_exponent :: "string \<Rightarrow> nat option" where
  "scan_exponent s =
     (let k = (case s of [] \<Rightarrow> 0 | c # _ \<Rightarrow> if c = CHR ''+'' \<or> c = CHR ''-'' then 1 else 0);
          d = count_digits (drop k s)
      in if d = 0 then None else Some (k + d))"

definition scan_fraction :: "string \<Rightarrow> nat option" where
  "scan_fraction s =
     (case s of
        [] \<Rightarrow> Some 0
      | c # r \<Rightarrow>
          (if c = CHR ''.'' then
             (let d = count_digits r
              in if d = 0 then None
                 else (case drop d r of
                         [] \<Rightarrow> Some (1 + d)
                       | e # r' \<Rightarrow>
                           (if is_exp_mark e
                            then map_option (\<lambda>m. 1 + d + 1 + m) (scan_exponent r')
                            else Some (1 + d))))
           else if is_exp_mark c then map_option (\<lambda>m. 1 + m) (scan_exponent r)
           else Some 0))"

definition scan_integer :: "char \<Rightarrow> string \<Rightarrow> nat option" where
  "scan_integer d r =
     (if d = CHR ''0'' then scan_fraction r
      else (let k = count_digits r in map_option (\<lambda>m. k + m) (scan_fraction (drop k r))))"

definition scan_number :: "char \<Rightarrow> string \<Rightarrow> nat option" where
  "scan_number c cs =
     (if c = CHR ''-'' then
        (case cs of
           [] \<Rightarrow> None
         | d # r \<Rightarrow> if is_digit d then map_option Suc (scan_integer d r) else None)
      else scan_integer c cs)"

definition cons_token :: "token \<Rightarrow> token list option \<Rightarrow> token list option" where
  "cons_token t rest = map_option ((#) t) rest"

fun tokenize :: "string \<Rightarrow> token list option" where
  "tokenize [] = Some []"
| "tokenize (c # cs) =
     (if is_space c then tokenize cs
      else if c = CHR ''{'' then cons_token T_begin_object (tokenize cs)
      else if c = CHR ''}'' then cons_token T_end_object (tokenize cs)
      else if c = CHR ''['' then cons_token T_begin_array (tokenize cs)
      else if c = CHR '']'' then cons_token T_end_array (tokenize cs)
      else if c = CHR '':'' then cons_token T_colon (tokenize cs)
      else if c = CHR '','' then cons_token T_comma (tokenize cs)
      else if c = CHR 0x22 then
        (case scan_string cs of
           None \<Rightarrow> None
         | Some (s, n) \<Rightarrow> cons_token (T_string s) (tokenize (drop n cs)))
      else if c = CHR ''-'' \<or> is_digit c then
        (case scan_number c cs of
           None \<Rightarrow> None
         | Some n \<Rightarrow> cons_token (T_number (c # take n cs)) (tokenize (drop n cs)))
      else if c = CHR ''t'' \<and> take 3 cs = ''rue'' then cons_token T_true (tokenize (drop 3 cs))
      else if c = CHR ''f'' \<and> take 4 cs = ''alse'' then cons_token T_false (tokenize (drop 4 cs))
      else if c = CHR ''n'' \<and> take 3 cs = ''ull'' then cons_token T_null (tokenize (drop 3 cs))
      else None)"

subsection \<open>Values\<close>

text \<open>
  A number keeps its literal, as the decoder converts it only once it knows the type
  of the target field. Members of an object stay in input order, duplicates included.
\<close>

datatype json =
    JNull | JBool bool | JNumber string | JString string
  | JArray "json list" | JObject "(string \<times> json) list"

text \<open>
  The scanner's \<^verbatim>\<open>parseState\<close> stack: one frame for each array or object that is
  open, with what has been read of it (latest first) and, in an object, the key whose
  value is awaited.
\<close>

datatype frame = F_array "json list" | F_object "(string \<times> json) list" "string option"

datatype scan_state =
    stateBeginValue | stateBeginValueOrEmpty | stateBeginStringOrEmpty | stateBeginString
  | stateObjectKey | stateEndValue | stateEndTop json

definition maxNestingDepth :: nat where
  "maxNestingDepth = 10000"

text \<open>A value is complete: it goes into the innermost open container, or is the text.\<close>

definition end_value :: "json \<Rightarrow> frame list \<Rightarrow> (scan_state \<times> frame list) option" where
  "end_value v stack =
     (case stack of
        [] \<Rightarrow> Some (stateEndTop v, [])
      | F_array es # st \<Rightarrow> Some (stateEndValue, F_array (v # es) # st)
      | F_object ms (Some k) # st \<Rightarrow> Some (stateEndValue, F_object ((k, v) # ms) None # st)
      | F_object ms None # st \<Rightarrow> None)"

definition push_frame :: "scan_state \<Rightarrow> frame \<Rightarrow> frame list \<Rightarrow> (scan_state \<times> frame list) option" where
  "push_frame s f stack =
     (if length stack + 1 \<le> maxNestingDepth then Some (s, f # stack) else None)"

definition begin_value :: "token \<Rightarrow> frame list \<Rightarrow> (scan_state \<times> frame list) option" where
  "begin_value t stack =
     (case t of
        T_begin_object \<Rightarrow> push_frame stateBeginStringOrEmpty (F_object [] None) stack
      | T_begin_array \<Rightarrow> push_frame stateBeginValueOrEmpty (F_array []) stack
      | T_string s \<Rightarrow> end_value (JString s) stack
      | T_number n \<Rightarrow> end_value (JNumber n) stack
      | T_true \<Rightarrow> end_value (JBool True) stack
      | T_false \<Rightarrow> end_value (JBool False) stack
      | T_null \<Rightarrow> end_value JNull stack
      | _ \<Rightarrow> None)"

definition close_array :: "frame list \<Rightarrow> (scan_state \<times> frame list) option" where
  "close_array stack =
     (case stack of F_array es # st \<Rightarrow> end_value (JArray (rev es)) st | _ \<Rightarrow> None)"

definition close_object :: "frame list \<Rightarrow> (scan_state \<times> frame list) option" where
  "close_object stack =
     (case stack of F_object ms None # st \<Rightarrow> end_value (JObject (rev ms)) st | _ \<Rightarrow> None)"

definition begin_key :: "token \<Rightarrow> frame list \<Rightarrow> (scan_state \<times> frame list) option" where
  "begin_key t stack =
     (case (t, stack) of
        (T_string k, F_object ms None # st) \<Rightarrow> Some (stateObjectKey, F_object ms (Some k) # st)
      | _ \<Rightarrow> None)"

definition scan_step :: "scan_state \<times> frame list \<Rightarrow> token \<Rightarrow> (scan_state \<times> frame list) option" where
  "scan_step st t =
     (case st of (s, stack) \<Rightarrow>
        (case s of
           stateBeginValue \<Rightarrow> begin_value t stack
         | stateBeginValueOrEmpty \<Rightarrow>
             (if t = T_end_array then close_array stack else begin_value t stack)
         | stateBeginStringOrEmpty \<Rightarrow>
             (if t = T_end_object then close_object stack else begin_key t stack)
         | stateBeginString \<Rightarrow> begin_key t stack
         | stateObjectKey \<Rightarrow> (if t = T_colon then Some (stateBeginValue, stack) else None)
         | stateEndValue \<Rightarrow>
             (case stack of
                F_array es # st' \<Rightarrow>
                  (if t = T_comma then Some (stateBeginValue, stack)
                   else if t = T_end_array then close_array stack else None)
              | F_object ms k # st' \<Rightarrow>
                  (if t = T_comma then Some (stateBeginString, stack)
                   else if t = T_end_object then close_object stack else None)
              | [] \<Rightarrow> None)
         | stateEndTop v \<Rightarrow> None))"

fun scan_tokens :: "scan_state \<times> frame list \<Rightarrow> token list \<Rightarrow> json option" where
  "scan_tokens st [] = (case st of (stateEndTop v, _) \<Rightarrow> Some v | _ \<Rightarrow> None)"
| "scan_tokens st (t # ts) =
     (case scan_step st t of None \<Rightarrow> None | Some st' \<Rightarrow> scan_tokens st' ts)"

text \<open>\<^verbatim>\<open>checkValid\<close> and the structure it found: \<open>None\<close> is the syntax error.\<close>

definition json_parse :: "bytes \<Rightarrow> json option" where
  "json_parse data =
     (case tokenize data of
        None \<Rightarrow> None
      | Some ts \<Rightarrow> scan_tokens (stateBeginValue, []) ts)"

subsection \<open>Integers\<close>

datatype NumError = ErrSyntax | ErrRange

fun digits_value :: "string \<Rightarrow> nat \<Rightarrow> nat option" where
  "digits_value [] acc = Some acc"
| "digits_value (c # cs) acc =
     (if is_digit c then digits_value cs (acc * 10 + (byte c - 48)) else None)"

text \<open>\<^verbatim>\<open>strconv.ParseUint(s, 10, 64)\<close>.\<close>

definition strconv_ParseUint :: "string \<Rightarrow> NumError + nat" where
  "strconv_ParseUint s =
     (if s = [] then Inl ErrSyntax
      else (case digits_value s 0 of
              None \<Rightarrow> Inl ErrSyntax
            | Some n \<Rightarrow> if n < 2 ^ 64 then Inr n else Inl ErrRange))"

text \<open>\<^verbatim>\<open>strconv.ParseInt(s, 10, 64)\<close>.\<close>

definition strconv_ParseInt :: "string \<Rightarrow> NumError + go_int" where
  "strconv_ParseInt s =
     (case s of
        [] \<Rightarrow> Inl ErrSyntax
      | c # r \<Rightarrow>
          (let neg = (c = CHR ''-'');
               s' = (if c = CHR ''+'' \<or> c = CHR ''-'' then r else s)
           in (case strconv_ParseUint s' of
                 Inl ErrSyntax \<Rightarrow> Inl ErrSyntax
               | Inl ErrRange \<Rightarrow> Inl ErrRange
               | Inr un \<Rightarrow>
                   (if \<not> neg \<and> 2 ^ 63 \<le> un then Inl ErrRange
                    else if neg \<and> 2 ^ 63 < un then Inl ErrRange
                    else Inr (word_of_int (if neg then - int un else int un))))))"

subsection \<open>Matching a key with a struct field\<close>

definition to_upper :: "char \<Rightarrow> char" where
  "to_upper c =
     (case map_of (zip ''abcdefghijklmnopqrstuvwxyz'' ''ABCDEFGHIJKLMNOPQRSTUVWXYZ'') c of
        Some u \<Rightarrow> u
      | None \<Rightarrow> c)"

text \<open>
  \<^verbatim>\<open>foldName\<close>: ASCII letters go to upper case, and a rune goes to the least rune
  of its case-folding orbit. Two runes beyond ASCII have an ASCII letter in their
  orbit, U+017F (long s, bytes C5 BF) and U+212A (Kelvin sign, bytes E2 84 AA); every
  other rune beyond ASCII folds to a rune beyond ASCII and is kept as it is here, which
  decides the same comparisons with the folded field names, all ASCII.
\<close>

fun foldName :: "string \<Rightarrow> string" where
  "foldName [] = []"
| "foldName (c # cs) =
     (if byte c < 128 then to_upper c # foldName cs
      else if c = CHR 0xC5 \<and> take 1 cs = [CHR 0xBF] then CHR ''S'' # foldName (drop 1 cs)
      else if c = CHR 0xE2 \<and> take 2 cs = [CHR 0x84, CHR 0xAA]
        then CHR ''K'' # foldName (drop 2 cs)
      else c # foldName cs)"

text \<open>The field for a key: the one of that very name, else one equal to it under folding.\<close>

definition lookup_field :: "string list \<Rightarrow> string \<Rightarrow> string option" where
  "lookup_field names key =
     (if key \<in> set names then Some key
      else find (\<lambda>n. foldName n = foldName key) names)"

subsection \<open>Storing a value into the struct\<close>

text \<open>\<^verbatim>\<open>saveError\<close> keeps the first error of a call.\<close>

definition saveError :: "json_error \<Rightarrow> json_error option \<Rightarrow> json_error option" where
  "saveError e saved = (case saved of None \<Rightarrow> Some e | Some e0 \<Rightarrow> Some e0)"

text \<open>An \<^verbatim>\<open>int\<close> field: null leaves it, a number must convert, any other kind is an error.\<close>

definition store_int :: "json \<Rightarrow> go_int \<times> json_error option \<Rightarrow> go_int \<times> json_error option" where
  "store_int v st =
     (case st of (cur, saved) \<Rightarrow>
        (case v of
           JNull \<Rightarrow> (cur, saved)
         | JNumber lit \<Rightarrow>
             (case strconv_ParseInt lit of
                Inr n \<Rightarrow> (n, saved)
              | Inl _ \<Rightarrow> (cur, saveError (UnmarshalTypeError (''number '' @ lit)) saved))
         | JBool _ \<Rightarrow> (cur, saveError (UnmarshalTypeError ''bool'') saved)
         | JString _ \<Rightarrow> (cur, saveError (UnmarshalTypeError ''string'') saved)
         | JArray _ \<Rightarrow> (cur, saveError (UnmarshalTypeError ''array'') saved)
         | JObject _ \<Rightarrow> (cur, saveError (UnmarshalTypeError ''object'') saved)))"

text \<open>What a struct reports for a value that is neither an object nor null.\<close>

definition struct_mismatch :: "json \<Rightarrow> json_error" where
  "struct_mismatch v =
     (case v of
        JBool _ \<Rightarrow> UnmarshalTypeError ''bool''
      | JString _ \<Rightarrow> UnmarshalTypeError ''string''
      | JNumber _ \<Rightarrow> UnmarshalTypeError ''number''
      | JArray _ \<Rightarrow> UnmarshalTypeError ''array''
      | _ \<Rightarrow> UnmarshalTypeError ''object'')"

definition Usage_fields :: "string list" where
  "Usage_fields = [''prompt_tokens'', ''total_tokens'', ''completion_tokens'']"

definition store_Usage_member ::
  "string \<times> json \<Rightarrow> Usage \<times> json_error option \<Rightarrow> Usage \<times> json_error option" where
  "store_Usage_member m st =
     (case (m, st) of ((k, v), (u, saved)) \<Rightarrow>
        (case lookup_field Usage_fields k of
           None \<Rightarrow> (u, saved)
         | Some f \<Rightarrow>
             (if f = ''prompt_tokens'' then
                (case store_int v (PromptTokens u, saved) of
                   (n, saved') \<Rightarrow> (u\<lparr>PromptTokens := n\<rparr>, saved'))
              else if f = ''total_tokens'' then
                (case store_int v (TotalTokens u, saved) of
                   (n, saved') \<Rightarrow> (u\<lparr>TotalTokens := n\<rparr>, saved'))
              else
                (case store_int v (CompletionTokens u, saved) of
                   (n, saved') \<Rightarrow> (u\<lparr>CompletionTokens := n\<rparr>, saved')))))"

definition store_Usage :: "json \<Rightarrow> Usage \<times> json_error option \<Rightarrow> Usage \<times> json_error option" where
  "store_Usage v st =
     (case v of
        JObject ms \<Rightarrow> fold store_Usage_member ms st
      | JNull \<Rightarrow> st
      | _ \<Rightarrow> (fst st, saveError (struct_mismatch v) (snd st)))"

definition store_openAIResp_member ::
  "string \<times> json \<Rightarrow> openAIResp \<times> json_error option \<Rightarrow> openAIResp \<times> json_error option" where
  "store_openAIResp_member m st =
     (case (m, st) of ((k, v), (r, saved)) \<Rightarrow>
        (case lookup_field [''usage''] k of
           None \<Rightarrow> (r, saved)
         | Some f \<Rightarrow>
             (case store_Usage v (Usage r, saved) of
                (u, saved') \<Rightarrow> (r\<lparr>Usage := u\<rparr>, saved'))))"

definition store_openAIResp ::
  "json \<Rightarrow> openAIResp \<times> json_error option \<Rightarrow> openAIResp \<times> json_error option" where
  "store_openAIResp v st =
     (case v of
        JObject ms \<Rightarrow> fold store_openAIResp_member ms st
      | JNull \<Rightarrow> st
      | _ \<Rightarrow> (fst st, saveError (struct_mismatch v) (snd st)))"

definition json_Unmarshal :: "bytes \<Rightarrow> openAIResp \<Rightarrow> json_error option \<times> openAIResp" where
  "json_Unmarshal data r =
     (case json_parse data of
        None \<Rightarrow> (Some SyntaxError, r)
      | Some v \<Rightarrow> (case store_openAIResp v (r, None) of (r', saved) \<Rightarrow> (saved, r')))"

section \<open>The decision for one callback\<close>

text \<open>
  \<^verbatim>\<open>json.Unmarshal(rb.Body, &openAIResp)\<close> receives the bytes and the struct to fill
  and returns an error or nil; the handler is written over any such decoder \<open>um\<close>.
  The decoder of Go's \<^verbatim>\<open>encoding/json\<close> is modelled further down.
\<close>

type_synonym unmarshal = "bytes \<Rightarrow> openAIResp \<Rightarrow> json_error option \<times> openAIResp"

text \<open>
  Of the handler's log lines, the two that report a failure and are in both copies of
  \<^verbatim>\<open>Process\<close> are kept as log entries. The informational lines of \<^verbatim>\<open>main.go\<close>
  format whole protobuf messages and guard no branch.
\<close>

datatype log_entry = Log_unmarshal_failed json_error | Log_send_error string

definition empty_BodyResponse :: BodyResponse where
  "empty_BodyResponse = \<lparr>BodyResponse_Response = None\<rparr>"

definition empty_HeadersResponse :: HeadersResponse where
  "empty_HeadersResponse = \<lparr>HeadersResponse_Response = None\<rparr>"

definition usage_headers :: "openAIResp \<Rightarrow> HeaderValueOption list" where
  "usage_headers r =
     [\<lparr>Header = Some \<lparr>Key = ''x-openai-prompt-tokens'',
                       Value = strconv_Itoa (PromptTokens (Usage r))\<rparr>, Append = None\<rparr>,
      \<lparr>Header = Some \<lparr>Key = ''x-openai-total-tokens'',
                       Value = strconv_Itoa (TotalTokens (Usage r))\<rparr>, Append = None\<rparr>,
      \<lparr>Header = Some \<lparr>Key = ''x-openai-completion-tokens'',
                       Value = strconv_Itoa (CompletionTokens (Usage r))\<rparr>, Append = None\<rparr>]"

text \<open>
  The body of the \<^verbatim>\<open>switch\<close> of \<^verbatim>\<open>Process\<close>: the response built for one request,
  with the failure log lines written on the way.
\<close>

fun process_request :: "unmarshal \<Rightarrow> ProcessingRequest \<Rightarrow> ProcessingResponse \<times> log_entry list" where
  "process_request um req =
     (case Request req of
        ProcessingRequest_RequestHeaders h \<Rightarrow>
          (\<lparr>Response = ProcessingResponse_RequestHeaders empty_HeadersResponse,
            ModeOverride = None\<rparr>, [])
      | ProcessingRequest_RequestBody b \<Rightarrow>
          (\<lparr>Response = ProcessingResponse_RequestBody empty_BodyResponse,
            ModeOverride = None\<rparr>, [])
      | ProcessingRequest_ResponseHeaders h \<Rightarrow>
          (\<lparr>Response = ProcessingResponse_ResponseHeaders empty_HeadersResponse,
            ModeOverride = Some
              \<lparr>RequestHeaderMode = ProcessingMode_DEFAULT,
               ResponseHeaderMode = ProcessingMode_SEND,
               RequestBodyMode = ProcessingMode_NONE,
               ResponseBodyMode = ProcessingMode_BUFFERED,
               RequestTrailerMode = ProcessingMode_DEFAULT,
               ResponseTrailerMode = ProcessingMode_DEFAULT\<rparr>\<rparr>, [])
      | ProcessingRequest_ResponseBody rb \<Rightarrow>
          (if \<not> EndOfStream rb then
             (\<lparr>Response = ProcessingResponse_ResponseBody empty_BodyResponse,
               ModeOverride = None\<rparr>, [])
           else
             (case um (Body rb) zero_openAIResp of
                (Some err, r) \<Rightarrow>
                  (\<lparr>Response = ProcessingResponse_ResponseBody empty_BodyResponse,
                    ModeOverride = None\<rparr>, [Log_unmarshal_failed err])
              | (None, r) \<Rightarrow>
                  (\<lparr>Response = ProcessingResponse_ResponseBody
                      \<lparr>BodyResponse_Response = Some
                        \<lparr>Status = CommonResponse_CONTINUE,
                         HeaderMutation = Some
                           \<lparr>SetHeaders = usage_headers r, RemoveHeaders = []\<rparr>,
                         BodyMutation = None,
                         ClearRouteCache = False\<rparr>\<rparr>,
                    ModeOverride = None\<rparr>, [])))
      | _ \<Rightarrow> (\<lparr>Response = ProcessingResponse_unset, ModeOverride = None\<rparr>, []))"

section \<open>The processing loop over one stream\<close>

text \<open>
  What the environment does on one stream: the results of the successive
  \<^verbatim>\<open>srv.Recv()\<close> calls, and the results of the successive \<^verbatim>\<open>srv.Send(resp)\<close>
  calls (nil once the list is used up). \<^verbatim>\<open>Process\<close> loops until a \<^verbatim>\<open>Recv\<close>
  returns an error; when the list of \<^verbatim>\<open>Recv\<close> results is used up, the session is
  \<open>Blocked\<close> in a \<^verbatim>\<open>Recv\<close> that has not returned.
\<close>

datatype recv_result = Recv_msg ProcessingRequest | Recv_EOF | Recv_err string

datatype grpc_code = codes_Unknown

record grpc_status =
  code :: grpc_code
  message :: string

datatype session_outcome = Returned "grpc_status option" | Blocked

record session =
  outcome :: session_outcome
  sent :: "ProcessingResponse list"
  logs :: "log_entry list"

fun Process :: "unmarshal \<Rightarrow> recv_result list \<Rightarrow> string option list \<Rightarrow> session" where
  "Process um [] ss = \<lparr>outcome = Blocked, sent = [], logs = []\<rparr>"
| "Process um (Recv_EOF # evs) ss = \<lparr>outcome = Returned None, sent = [], logs = []\<rparr>"
| "Process um (Recv_err e # evs) ss =
     \<lparr>outcome = Returned (Some \<lparr>code = codes_Unknown,
                                message = ''cannot receive stream request: '' @ e\<rparr>),
      sent = [], logs = []\<rparr>"
| "Process um (Recv_msg req # evs) ss =
     (let (resp, lg) = process_request um req;
          send_err = (case ss of [] \<Rightarrow> None | x # _ \<Rightarrow> x);
          rest = Process um evs (tl ss)
      in \<lparr>outcome = outcome rest,
          sent = resp # sent rest,
          logs = lg @ (case send_err of None \<Rightarrow> [] | Some e \<Rightarrow> [Log_send_error e])
                    @ logs rest\<rparr>)"

text \<open>The header mutation that a response carries, whichever variant it is.\<close>

definition response_mutation :: "ProcessingResponse \<Rightarrow> HeaderMutation option" where
  "response_mutation resp =
     (case Response resp of
        ProcessingResponse_RequestHeaders h \<Rightarrow>
          (case HeadersResponse_Response h of None \<Rightarrow> None | Some c \<Rightarrow> HeaderMutation c)
      | ProcessingResponse_ResponseHeaders h \<Rightarrow>
          (case HeadersResponse_Response h of None \<Rightarrow> None | Some c \<Rightarrow> HeaderMutation c)
      | ProcessingResponse_RequestBody b \<Rightarrow>
          (case BodyResponse_Response b of None \<Rightarrow> None | Some c \<Rightarrow> HeaderMutation c)
      | ProcessingResponse_ResponseBody b \<Rightarrow>
          (case BodyResponse_Response b of None \<Rightarrow> None | Some c \<Rightarrow> HeaderMutation c)
      | ProcessingResponse_unset \<Rightarrow> None)"

definition decision :: "unmarshal \<Rightarrow> ProcessingRequest \<Rightarrow> ProcessingResponse" where
  "decision um req = fst (process_request um req)"

definition response_body_callback :: "bytes \<Rightarrow> bool \<Rightarrow> ProcessingRequest" where
  "response_body_callback b eos =
     \<lparr>Request = ProcessingRequest_ResponseBody \<lparr>Body = b, EndOfStream = eos\<rparr>\<rparr>"

section \<open>Notions used to state the properties\<close>

text \<open>The callbacks that a session receives: the messages read before a read fails.\<close>

fun received :: "recv_result list \<Rightarrow> ProcessingRequest list" where
  "received [] = []"
| "received (Recv_msg req # evs) = req # received evs"
| "received (Recv_EOF # evs) = []"
| "received (Recv_err e # evs) = []"

text \<open>The first read that is not a message, if there is one.\<close>

fun first_stop :: "recv_result list \<Rightarrow> recv_result option" where
  "first_stop [] = None"
| "first_stop (Recv_msg req # evs) = first_stop evs"
| "first_stop (Recv_EOF # evs) = Some Recv_EOF"
| "first_stop (Recv_err e # evs) = Some (Recv_err e)"

text \<open>A decision that asks nothing of the proxy: no mode override, no header mutation.\<close>

definition neutral :: "ProcessingResponse \<Rightarrow> bool" where
  "neutral resp = (ModeOverride resp = None \<and> response_mutation resp = None)"

text \<open>The callbacks that reach the \<^verbatim>\<open>default\<close> arm of the type switch.\<close>

definition unrecognized :: "ProcessingRequest \<Rightarrow> bool" where
  "unrecognized req =
     (case Request req of
        ProcessingRequest_RequestTrailers t \<Rightarrow> True
      | ProcessingRequest_ResponseTrailers t \<Rightarrow> True
      | ProcessingRequest_unset \<Rightarrow> True
      | _ \<Rightarrow> False)"

definition buffer_override :: ProcessingMode where
  "buffer_override =
     \<lparr>RequestHeaderMode = ProcessingMode_DEFAULT,
      ResponseHeaderMode = ProcessingMode_SEND,
      RequestBodyMode = ProcessingMode_NONE,
      ResponseBodyMode = ProcessingMode_BUFFERED,
      RequestTrailerMode = ProcessingMode_DEFAULT,
      ResponseTrailerMode = ProcessingMode_DEFAULT\<rparr>"

definition is_ResponseHeaders :: "ProcessingRequest \<Rightarrow> bool" where
  "is_ResponseHeaders req =
     (case Request req of ProcessingRequest_ResponseHeaders h \<Rightarrow> True | _ \<Rightarrow> False)"

text \<open>
  The per-transaction state machine as the specification words it (section 4.1): the
  phase a transaction is in, the callback each phase expects, and the phase that
  follows. The handler has no such state; these definitions only serve to say what
  ``in protocol order'' and ``not matching the expected phase'' mean.
\<close>

datatype spec_phase = Start | AwaitRequestBody | AwaitResponseHeaders | Buffering | Done

fun spec_expects :: "spec_phase \<Rightarrow> ProcessingRequest_Request \<Rightarrow> bool" where
  "spec_expects Start r = (case r of ProcessingRequest_RequestHeaders h \<Rightarrow> True | _ \<Rightarrow> False)"
| "spec_expects AwaitRequestBody r = (case r of ProcessingRequest_RequestBody b \<Rightarrow> True | _ \<Rightarrow> False)"
| "spec_expects AwaitResponseHeaders r =
     (case r of ProcessingRequest_ResponseHeaders h \<Rightarrow> True | _ \<Rightarrow> False)"
| "spec_expects Buffering r = (case r of ProcessingRequest_ResponseBody b \<Rightarrow> True | _ \<Rightarrow> False)"
| "spec_expects Done r = False"

fun spec_next :: "spec_phase \<Rightarrow> ProcessingRequest_Request \<Rightarrow> spec_phase" where
  "spec_next Start r = AwaitRequestBody"
| "spec_next AwaitRequestBody r = AwaitResponseHeaders"
| "spec_next AwaitResponseHeaders r = Buffering"
| "spec_next Buffering r =
     (case r of
        ProcessingRequest_ResponseBody b \<Rightarrow> if EndOfStream b then Done else Buffering
      | _ \<Rightarrow> Buffering)"
| "spec_next Done r = Done"

fun protocol_order :: "spec_phase \<Rightarrow> ProcessingRequest list \<Rightarrow> bool" where
  "protocol_order p [] = (p = Done)"
| "protocol_order p (req # reqs) =
     (spec_expects p (Request req) \<and> protocol_order (spec_next p (Request req)) reqs)"

text \<open>The response body of the specification's scenario A.\<close>

definition scenario_A_body :: bytes where
  \<open>scenario_A_body = ''{"usage":{"prompt_tokens":5,"total_tokens":15,"completion_tokens":10}}''\<close>

definition header_values :: "ProcessingResponse \<Rightarrow> string option list" where
  "header_values resp =
     (case response_mutation resp of
        None \<Rightarrow> []
      | Some hm \<Rightarrow> map (map_option Value \<circ> Header) (SetHeaders hm))"

definition header_keys :: "HeaderMutation \<Rightarrow> string option list" where
  "header_keys hm = map (map_option Key \<circ> Header) (SetHeaders hm)"

text \<open>Concrete callbacks and streams: the specification's scenarios A and C.\<close>

definition response_headers_callback :: ProcessingRequest where
  "response_headers_callback =
     \<lparr>Request = ProcessingRequest_ResponseHeaders \<lparr>Headers = [], HeadersEndOfStream = False\<rparr>\<rparr>"

definition request_headers_callback :: ProcessingRequest where
  "request_headers_callback =
     \<lparr>Request = ProcessingRequest_RequestHeaders \<lparr>Headers = [], HeadersEndOfStream = False\<rparr>\<rparr>"

definition request_body_callback :: ProcessingRequest where
  "request_body_callback =
     \<lparr>Request = ProcessingRequest_RequestBody \<lparr>Body = [], EndOfStream = True\<rparr>\<rparr>"

definition scenario_A :: "recv_result list" where
  "scenario_A =
     [Recv_msg request_headers_callback, Recv_msg request_body_callback,
      Recv_msg response_headers_callback,
      Recv_msg (response_body_callback scenario_A_body True), Recv_EOF]"

definition empty_response :: ProcessingResponse where
  "empty_response = \<lparr>Response = ProcessingResponse_unset, ModeOverride = None\<rparr>"

definition chunk_1 :: bytes where
  \<open>chunk_1 = ''{"usage":{"prompt_tokens":5,''\<close>

definition chunk_2 :: bytes where
  \<open>chunk_2 = ''"total_tokens":15,"completion_tokens":10}}''\<close>

text \<open>A string of decimal digits, the shape of a non-negative decimal numeral.\<close>

definition all_digits :: "string \<Rightarrow> bool" where
  "all_digits s = (s \<noteq> [] \<and> list_all is_digit s)"

text \<open>Response bodies: one with a negative count, one with a count of \<open>2\<^sup>6\<^sup>3\<close>, one without the \<^verbatim>\<open>usage\<close> member.\<close>

definition negative_body :: bytes where
  \<open>negative_body = ''{"usage":{"prompt_tokens":-5,"total_tokens":15,"completion_tokens":10}}''\<close>

definition overflow_body :: bytes where
  \<open>overflow_body = ''{"usage":{"prompt_tokens":9223372036854775808,"total_tokens":15,"completion_tokens":10}}''\<close>

definition no_usage_body :: bytes where
  \<open>no_usage_body = ''{"id":"x"}''\<close>

text \<open>The empty body response that answers a chunk.\<close>

definition chunk_decision :: ProcessingResponse where
  "chunk_decision =
     \<lparr>Response = ProcessingResponse_ResponseBody \<lparr>BodyResponse_Response = None\<rparr>,
      ModeOverride = None\<rparr>"

text \<open>A member of the top-level object whose key does not select the \<^verbatim>\<open>usage\<close> field: not that name, and not equal to it under the decoder's case folding.\<close>

definition unrelated :: "string \<times> json \<Rightarrow> bool" where
  "unrelated m = (lookup_field [''usage''] (fst m) = None)"

text \<open>The value \<^verbatim>\<open>{"prompt_tokens":P,"total_tokens":T,"completion_tokens":C}\<close> with the three counts written as decimal numerals.\<close>

definition usage_object :: "nat \<Rightarrow> nat \<Rightarrow> nat \<Rightarrow> json" where
  "usage_object P T C =
     JObject [(''prompt_tokens'', JNumber (format_decimal P)),
              (''total_tokens'', JNumber (format_decimal T)),
              (''completion_tokens'', JNumber (format_decimal C))]"

text \<open>The mutation that sets the three usage headers to given values.\<close>

definition usage_mutation :: "string \<Rightarrow> string \<Rightarrow> string \<Rightarrow> HeaderMutation" where
  "usage_mutation p t c =
     \<lparr>SetHeaders =
        [\<lparr>Header = Some \<lparr>Key = ''x-openai-prompt-tokens'', Value = p\<rparr>, Append = None\<rparr>,
         \<lparr>Header = Some \<lparr>Key = ''x-openai-total-tokens'', Value = t\<rparr>, Append = None\<rparr>,
         \<lparr>Header = Some \<lparr>Key = ''x-openai-completion-tokens'', Value = c\<rparr>, Append = None\<rparr>],
      RemoveHeaders = []\<rparr>"

text \<open>A body with the usage object between two other members.\<close>

definition extra_fields_body :: bytes where
  \<open>extra_fields_body = ''{"id":"x", "usage":{"prompt_tokens":5,"total_tokens":15,"completion_tokens":10},"model":"llm"}''\<close>

text \<open>The bytes \<^verbatim>\<open>{"usage":{"prompt_tokens":P,"total_tokens":T,"completion_tokens":C}}\<close> with the three counts written as decimal numerals.\<close>

definition canonical_body :: "nat \<Rightarrow> nat \<Rightarrow> nat \<Rightarrow> bytes" where
  \<open>canonical_body P T C =
     ''{"usage":{"prompt_tokens":'' @ format_decimal P @ '',"total_tokens":'' @ format_decimal T
       @ '',"completion_tokens":'' @ format_decimal C @ ''}}''\<close>

section \<open>Properties of the decision for one callback\<close>

text \<open>
  Claim C6. A response-body callback whose end-of-stream flag is false gets the empty
  body response: no header mutation, no mode override, nothing logged. The equation
  holds for every decoder \<open>um\<close> and every payload \<open>b\<close>, so neither is consulted on
  this path: no JSON is parsed.
\<close>

theorem C6_chunk_not_parsed:
  "process_request um (response_body_callback b False) =
     (\<lparr>Response = ProcessingResponse_ResponseBody \<lparr>BodyResponse_Response = None\<rparr>,
       ModeOverride = None\<rparr>, [])"
  by (simp add: response_body_callback_def empty_BodyResponse_def)

lemma sent_Process: "sent (Process um evs ss) = map (decision um) (received evs)"
proof (induction evs arbitrary: ss)
  case Nil
  show ?case by simp
next
  case (Cons ev evs)
  show ?case
  proof (cases ev)
    case (Recv_msg req)
    obtain resp lg where pr: "process_request um req = (resp, lg)"
      by (cases "process_request um req")
    show ?thesis
      unfolding Recv_msg using Cons.IH [of "tl ss"] pr
      by (simp add: decision_def Let_def del: process_request.simps)
  next
    case Recv_EOF
    then show ?thesis by simp
  next
    case (Recv_err e)
    then show ?thesis by simp
  qed
qed

lemma outcome_Process:
  "outcome (Process um evs ss) =
     (case first_stop evs of
        None \<Rightarrow> Blocked
      | Some Recv_EOF \<Rightarrow> Returned None
      | Some (Recv_err e) \<Rightarrow>
          Returned (Some \<lparr>code = codes_Unknown,
                          message = ''cannot receive stream request: '' @ e\<rparr>)
      | Some (Recv_msg req) \<Rightarrow> Blocked)"
proof (induction evs arbitrary: ss)
  case Nil
  show ?case by simp
next
  case (Cons ev evs)
  show ?case
  proof (cases ev)
    case (Recv_msg req)
    obtain resp lg where pr: "process_request um req = (resp, lg)"
      by (cases "process_request um req")
    show ?thesis
      unfolding Recv_msg using Cons.IH [of "tl ss"] pr
      by (simp add: Let_def del: process_request.simps)
  next
    case Recv_EOF
    then show ?thesis by simp
  next
    case (Recv_err e)
    then show ?thesis by simp
  qed
qed

lemma first_stop_not_msg: "first_stop evs \<noteq> Some (Recv_msg req)"
  by (induction evs rule: first_stop.induct) simp_all

lemma send_error_logged:
  "i < length (received evs) \<Longrightarrow> i < length ss \<Longrightarrow> ss ! i = Some e \<Longrightarrow>
     Log_send_error e \<in> set (logs (Process um evs ss))"
proof (induction evs arbitrary: ss i)
  case Nil
  then show ?case by simp
next
  case (Cons ev evs)
  show ?case
  proof (cases ev)
    case (Recv_msg req)
    obtain resp lg where pr: "process_request um req = (resp, lg)"
      by (cases "process_request um req")
    obtain s ss' where ss: "ss = s # ss'"
      using Cons.prems(2) by (cases ss) auto
    show ?thesis
    proof (cases i)
      case 0
      then show ?thesis
        unfolding Recv_msg using pr ss Cons.prems
        by (simp add: Let_def del: process_request.simps)
    next
      case (Suc j)
      then have "Log_send_error e \<in> set (logs (Process um evs ss'))"
        using Cons.IH [of j ss'] Cons.prems ss Recv_msg by simp
      then show ?thesis
        unfolding Recv_msg using pr ss
        by (simp add: Let_def del: process_request.simps)
    qed
  next
    case Recv_EOF
    then show ?thesis using Cons.prems by simp
  next
    case (Recv_err e')
    then show ?thesis using Cons.prems by simp
  qed
qed

lemma ModeOverride_decision:
  "ModeOverride (decision um req) = (if is_ResponseHeaders req then Some buffer_override else None)"
  by (cases "Request req")
     (auto simp: decision_def is_ResponseHeaders_def buffer_override_def
           split: prod.splits option.splits)

lemma protocol_order_count:
  "protocol_order p reqs \<Longrightarrow>
     length (filter is_ResponseHeaders reqs) =
       (if p = Buffering \<or> p = Done then 0 else 1)"
proof (induction reqs arbitrary: p)
  case Nil
  then show ?case by simp
next
  case (Cons req reqs)
  then show ?case
    by (cases p; cases "Request req")
       (auto simp: is_ResponseHeaders_def split: if_splits)
qed

lemmas scan_eval =
  json_parse_def cons_token_def is_space_def is_digit_def byte_def scan_number_def
  scan_integer_def scan_fraction_def scan_exponent_def count_digits_def is_exp_mark_def
  emit_def scan_step_def begin_value_def begin_key_def end_value_def push_frame_def
  close_array_def close_object_def maxNestingDepth_def

lemmas store_eval =
  json_Unmarshal_def store_openAIResp_def store_openAIResp_member_def store_Usage_def
  store_Usage_member_def store_int_def lookup_field_def Usage_fields_def zero_openAIResp_def
  strconv_ParseInt_def strconv_ParseUint_def saveError_def struct_mismatch_def to_upper_def

lemmas show_eval =
  usage_headers_def strconv_Itoa_def format_decimal.simps digit_char_def

lemma scenario_A_parse:
  "json_parse scenario_A_body =
     Some (JObject [(''usage'', JObject [(''prompt_tokens'', JNumber ''5''),
       (''total_tokens'', JNumber ''15''), (''completion_tokens'', JNumber ''10'')])])"
  by (simp add: scenario_A_body_def scan_eval)

lemma scenario_A_Unmarshal:
  "json_Unmarshal scenario_A_body zero_openAIResp =
     (None, \<lparr>Usage = \<lparr>PromptTokens = 5, TotalTokens = 15, CompletionTokens = 10\<rparr>\<rparr>)"
  unfolding json_Unmarshal_def scenario_A_parse
  by (simp add: store_eval is_digit_def byte_def)

lemma scenario_A_decision:
  "decision json_Unmarshal (response_body_callback scenario_A_body True) =
     \<lparr>Response = ProcessingResponse_ResponseBody
        \<lparr>BodyResponse_Response = Some
          \<lparr>Status = CommonResponse_CONTINUE,
           HeaderMutation = Some
             \<lparr>SetHeaders =
                [\<lparr>Header = Some \<lparr>Key = ''x-openai-prompt-tokens'', Value = ''5''\<rparr>, Append = None\<rparr>,
                 \<lparr>Header = Some \<lparr>Key = ''x-openai-total-tokens'', Value = ''15''\<rparr>, Append = None\<rparr>,
                 \<lparr>Header = Some \<lparr>Key = ''x-openai-completion-tokens'', Value = ''10''\<rparr>,
                  Append = None\<rparr>],
              RemoveHeaders = []\<rparr>,
           BodyMutation = None,
           ClearRouteCache = False\<rparr>\<rparr>,
      ModeOverride = None\<rparr>"
  by (simp add: decision_def response_body_callback_def scenario_A_Unmarshal
        zero_openAIResp_def [symmetric] show_eval)

text \<open>
  Claim C10. Whenever a decision carries a header mutation, its \<^verbatim>\<open>SetHeaders\<close> list
  has three entries whose names are \<^verbatim>\<open>x-openai-prompt-tokens\<close>,
  \<^verbatim>\<open>x-openai-total-tokens\<close> and \<^verbatim>\<open>x-openai-completion-tokens\<close>, in this order. They
  are set, not appended: they travel in the mutation's set-headers list, none of them
  has the append flag, and nothing is removed.
\<close>

theorem C10_header_names:
  assumes "response_mutation (decision um req) = Some hm"
  shows "header_keys hm =
           [Some ''x-openai-prompt-tokens'', Some ''x-openai-total-tokens'',
            Some ''x-openai-completion-tokens'']
         \<and> map Append (SetHeaders hm) = [None, None, None]
         \<and> RemoveHeaders hm = []"
  using assms
  by (cases "Request req")
     (auto simp: decision_def response_mutation_def header_keys_def usage_headers_def
        empty_BodyResponse_def empty_HeadersResponse_def
        split: prod.splits option.splits if_splits)

text \<open>The decision for the body of scenario A carries such a mutation.\<close>

theorem C10_header_names_witness:
  "response_mutation (decision json_Unmarshal (response_body_callback scenario_A_body True))
     = Some \<lparr>SetHeaders =
                [\<lparr>Header = Some \<lparr>Key = ''x-openai-prompt-tokens'', Value = ''5''\<rparr>, Append = None\<rparr>,
                 \<lparr>Header = Some \<lparr>Key = ''x-openai-total-tokens'', Value = ''15''\<rparr>, Append = None\<rparr>,
                 \<lparr>Header = Some \<lparr>Key = ''x-openai-completion-tokens'', Value = ''10''\<rparr>,
                  Append = None\<rparr>],
              RemoveHeaders = []\<rparr>
   \<and> header_keys \<lparr>SetHeaders =
                [\<lparr>Header = Some \<lparr>Key = ''x-openai-prompt-tokens'', Value = ''5''\<rparr>, Append = None\<rparr>,
                 \<lparr>Header = Some \<lparr>Key = ''x-openai-total-tokens'', Value = ''15''\<rparr>, Append = None\<rparr>,
                 \<lparr>Header = Some \<lparr>Key = ''x-openai-completion-tokens'', Value = ''10''\<rparr>,
                  Append = None\<rparr>],
              RemoveHeaders = []\<rparr> =
           [Some ''x-openai-prompt-tokens'', Some ''x-openai-total-tokens'',
            Some ''x-openai-completion-tokens'']"
proof -
  have h: "response_mutation (decision json_Unmarshal (response_body_callback scenario_A_body True))
     = Some \<lparr>SetHeaders =
                [\<lparr>Header = Some \<lparr>Key = ''x-openai-prompt-tokens'', Value = ''5''\<rparr>, Append = None\<rparr>,
                 \<lparr>Header = Some \<lparr>Key = ''x-openai-total-tokens'', Value = ''15''\<rparr>, Append = None\<rparr>,
                 \<lparr>Header = Some \<lparr>Key = ''x-openai-completion-tokens'', Value = ''10''\<rparr>,
                  Append = None\<rparr>],
              RemoveHeaders = []\<rparr>"
    by (simp add: scenario_A_decision response_mutation_def)
  from C10_header_names [OF h] h show ?thesis by blast
qed

section \<open>Properties of a session\<close>

lemma received_scenario_A:
  "received scenario_A =
     [request_headers_callback, request_body_callback, response_headers_callback,
      response_body_callback scenario_A_body True]"
  by (simp add: scenario_A_def)

text \<open>
  Claim C4, as amended. Whatever the reads and the sends return, the responses passed
  to \<^verbatim>\<open>Send\<close> are the decisions for the callbacks received, one for each and in
  their order, each computed from its callback alone. A callback that the type switch
  does not recognise (trailers, an unset oneof) gets the empty response, with nothing
  logged. The handler tracks no phase: a callback of a recognised type gets the
  decision of its type wherever it comes in the stream.
\<close>

theorem C4_one_decision_per_callback:
  "sent (Process um evs ss) = map (decision um) (received evs)
   \<and> (unrecognized req \<longrightarrow> process_request um req = (empty_response, []))"
  by (cases "Request req")
     (simp_all add: sent_Process unrecognized_def empty_response_def)

text \<open>The same at scenario A and at a request whose oneof is unset.\<close>

theorem C4_one_decision_per_callback_witness:
  "unrecognized \<lparr>Request = ProcessingRequest_unset\<rparr>
   \<and> process_request json_Unmarshal \<lparr>Request = ProcessingRequest_unset\<rparr> = (empty_response, [])
   \<and> sent (Process json_Unmarshal scenario_A []) = map (decision json_Unmarshal) (received scenario_A)"
proof -
  have h: "unrecognized \<lparr>Request = ProcessingRequest_unset\<rparr>"
    by (simp add: unrecognized_def)
  from C4_one_decision_per_callback
         [of json_Unmarshal scenario_A "[]" "\<lparr>Request = ProcessingRequest_unset\<rparr>"] h
  show ?thesis by blast
qed

text \<open>
  Claim C4 as stated fails: a response-headers callback that opens a stream does not
  match what the phase \<open>Start\<close> expects, and its decision still carries the mode
  override, so it is not neutral.
\<close>

theorem C4_out_of_phase_counterexample:
  "\<not> spec_expects Start (Request response_headers_callback)
   \<and> sent (Process json_Unmarshal [Recv_msg response_headers_callback] [])
       = [decision json_Unmarshal response_headers_callback]
   \<and> \<not> neutral (decision json_Unmarshal response_headers_callback)"
  by (simp add: response_headers_callback_def neutral_def decision_def)

text \<open>
  Claim C5. When the callbacks received follow the protocol order, exactly one
  decision of the session carries a mode override; the decisions that carry one are
  those for response-headers callbacks and no others; and the override asks for
  response headers to be sent (\<^verbatim>\<open>SEND\<close>) and for the response body to be
  buffered (\<^verbatim>\<open>BUFFERED\<close>).
\<close>

theorem C5_override_once:
  assumes "protocol_order Start (received evs)"
  shows "length (filter (\<lambda>d. ModeOverride d \<noteq> None) (sent (Process um evs ss))) = 1
         \<and> map ModeOverride (sent (Process um evs ss)) =
             map (\<lambda>req. if is_ResponseHeaders req then Some buffer_override else None)
               (received evs)
         \<and> ResponseHeaderMode buffer_override = ProcessingMode_SEND
         \<and> ResponseBodyMode buffer_override = ProcessingMode_BUFFERED"
proof -
  have "filter (\<lambda>d. ModeOverride d \<noteq> None) (map (decision um) reqs)
          = map (decision um) (filter is_ResponseHeaders reqs)" for reqs
    by (induction reqs) (simp_all add: ModeOverride_decision)
  then have "length (filter (\<lambda>d. ModeOverride d \<noteq> None) (sent (Process um evs ss)))
          = length (filter is_ResponseHeaders (received evs))"
    by (simp add: sent_Process)
  moreover have "length (filter is_ResponseHeaders (received evs)) = 1"
    using protocol_order_count [OF assms] by simp
  moreover have "map ModeOverride (sent (Process um evs ss)) =
             map (\<lambda>req. if is_ResponseHeaders req then Some buffer_override else None)
               (received evs)"
    by (simp add: sent_Process ModeOverride_decision)
  ultimately show ?thesis
    by (simp add: buffer_override_def)
qed

text \<open>Scenario A is in protocol order; its third decision alone carries the override.\<close>

theorem C5_override_once_witness:
  "protocol_order Start (received scenario_A)
   \<and> length (filter (\<lambda>d. ModeOverride d \<noteq> None) (sent (Process json_Unmarshal scenario_A []))) = 1
   \<and> map ModeOverride (sent (Process json_Unmarshal scenario_A [])) =
        [None, None, Some buffer_override, None]"
proof -
  have h: "protocol_order Start (received scenario_A)"
    by (simp add: received_scenario_A request_headers_callback_def request_body_callback_def
          response_headers_callback_def response_body_callback_def)
  have m: "map (\<lambda>req. if is_ResponseHeaders req then Some buffer_override else None)
             (received scenario_A) = [None, None, Some buffer_override, None]"
    by (simp add: received_scenario_A request_headers_callback_def request_body_callback_def
          response_headers_callback_def response_body_callback_def is_ResponseHeaders_def)
  from C5_override_once [OF h, of json_Unmarshal "[]"] h m show ?thesis by simp
qed

text \<open>
  Claim C7. \<^verbatim>\<open>Process\<close> returns nil exactly when the first read that is not a
  message is end-of-file; it returns a status of code \<^verbatim>\<open>Unknown\<close> naming the error
  when that read fails otherwise; and while every read gives a message it has not
  returned. What \<^verbatim>\<open>Send\<close> returns changes none of this, nor the decisions made for
  the callbacks that follow: a failed send is logged and the loop goes on.
\<close>

theorem C7_termination_and_send_failure:
  "(outcome (Process um evs ss) = Returned None \<longleftrightarrow> first_stop evs = Some Recv_EOF)
   \<and> (first_stop evs = Some (Recv_err e) \<longrightarrow>
        outcome (Process um evs ss) =
          Returned (Some \<lparr>code = codes_Unknown,
                          message = ''cannot receive stream request: '' @ e\<rparr>))
   \<and> (first_stop evs = None \<longrightarrow> outcome (Process um evs ss) = Blocked)
   \<and> sent (Process um evs ss) = map (decision um) (received evs)
   \<and> (i < length (received evs) \<and> i < length ss \<and> ss ! i = Some err \<longrightarrow>
        Log_send_error err \<in> set (logs (Process um evs ss)))"
proof -
  have "outcome (Process um evs ss) = Returned None \<longleftrightarrow> first_stop evs = Some Recv_EOF"
    by (simp add: outcome_Process split: option.splits recv_result.splits)
  moreover have "first_stop evs = Some (Recv_err e) \<longrightarrow>
        outcome (Process um evs ss) =
          Returned (Some \<lparr>code = codes_Unknown,
                          message = ''cannot receive stream request: '' @ e\<rparr>)"
    by (simp add: outcome_Process)
  moreover have "first_stop evs = None \<longrightarrow> outcome (Process um evs ss) = Blocked"
    by (simp add: outcome_Process)
  ultimately show ?thesis
    using sent_Process [of um evs ss] send_error_logged [of i evs ss err um] by blast
qed

text \<open>
  Scenario A with a failing second send still ends with nil after four decisions, with
  the failure in the log; a stream whose second read fails ends with the status.
\<close>

theorem C7_termination_and_send_failure_witness:
  "first_stop scenario_A = Some Recv_EOF
   \<and> outcome (Process json_Unmarshal scenario_A [None, Some ''broken pipe'']) = Returned None
   \<and> first_stop [Recv_msg request_headers_callback, Recv_err ''reset''] = Some (Recv_err ''reset'')
   \<and> outcome (Process json_Unmarshal [Recv_msg request_headers_callback, Recv_err ''reset''] [])
       = Returned (Some \<lparr>code = codes_Unknown,
                         message = ''cannot receive stream request: reset''\<rparr>)
   \<and> length (sent (Process json_Unmarshal scenario_A [None, Some ''broken pipe''])) = 4
   \<and> Log_send_error ''broken pipe''
       \<in> set (logs (Process json_Unmarshal scenario_A [None, Some ''broken pipe'']))"
proof -
  have a: "first_stop scenario_A = Some Recv_EOF"
    by (simp add: scenario_A_def)
  have b: "first_stop [Recv_msg request_headers_callback, Recv_err ''reset''] = Some (Recv_err ''reset'')"
    by simp
  have c: "(1::nat) < length (received scenario_A) \<and> (1::nat) < length [None, Some ''broken pipe'']
             \<and> [None, Some ''broken pipe''] ! 1 = Some ''broken pipe''"
    by (simp add: received_scenario_A)
  have d: "length (received scenario_A) = 4"
    by (simp add: received_scenario_A)
  from C7_termination_and_send_failure
         [of json_Unmarshal scenario_A "[None, Some ''broken pipe'']" "''reset''" 1 "''broken pipe''"]
       C7_termination_and_send_failure
         [of json_Unmarshal "[Recv_msg request_headers_callback, Recv_err ''reset'']" "[]" "''reset''"
             0 "''x''"]
       a b c d
  show ?thesis by simp
qed

text \<open>
  Claim C9. The decision at a position of a stream is determined by the callback at
  that position: two sessions, whatever came before and whatever their sends returned,
  answer equal callbacks with equal decisions.
\<close>

theorem C9_decision_depends_on_callback_only:
  assumes "i < length (received evs1)" and "j < length (received evs2)"
    and "received evs1 ! i = received evs2 ! j"
  shows "sent (Process um evs1 ss1) ! i = sent (Process um evs2 ss2) ! j"
  using assms by (simp add: sent_Process)

text \<open>
  The response-headers callback is answered alike as the third callback of scenario A
  and as the first callback of another stream.
\<close>

theorem C9_decision_depends_on_callback_only_witness:
  "(2::nat) < length (received scenario_A)
   \<and> (0::nat) < length (received [Recv_msg response_headers_callback])
   \<and> received scenario_A ! 2 = received [Recv_msg response_headers_callback] ! 0
   \<and> sent (Process json_Unmarshal scenario_A [Some ''x'']) ! 2
       = sent (Process json_Unmarshal [Recv_msg response_headers_callback] []) ! 0"
proof -
  have a: "(2::nat) < length (received scenario_A)"
    by (simp add: received_scenario_A)
  have b: "(0::nat) < length (received [Recv_msg response_headers_callback])"
    by simp
  have c: "received scenario_A ! 2 = received [Recv_msg response_headers_callback] ! 0"
    by (simp add: received_scenario_A)
  from C9_decision_depends_on_callback_only [OF a b c, of json_Unmarshal "[Some ''x'']" "[]"] a b c
  show ?thesis by blast
qed

section \<open>Decimal numerals: \<^verbatim>\<open>strconv.Itoa\<close> and \<^verbatim>\<open>strconv.ParseInt\<close>\<close>

lemma digit_char_props:
  assumes "d < 10"
  shows "is_digit (digit_char d)" and "byte (digit_char d) - 48 = d"
    and "digit_char d \<noteq> CHR ''-''" and "digit_char d \<noteq> CHR ''+''"
proof -
  from assms have "d = 0 \<or> d = 1 \<or> d = 2 \<or> d = 3 \<or> d = 4 \<or> d = 5 \<or> d = 6 \<or> d = 7
      \<or> d = 8 \<or> d = 9"
    by arith
  then show "is_digit (digit_char d)" and "byte (digit_char d) - 48 = d"
    and "digit_char d \<noteq> CHR ''-''" and "digit_char d \<noteq> CHR ''+''"
    by (auto simp: digit_char_def is_digit_def byte_def)
qed

lemma digits_value_append:
  "digits_value (xs @ ys) acc =
     (case digits_value xs acc of None \<Rightarrow> None | Some a \<Rightarrow> digits_value ys a)"
  by (induction xs arbitrary: acc) simp_all

lemma digits_value_format_decimal: "digits_value (format_decimal n) 0 = Some n"
proof (induction n rule: format_decimal.induct)
  case (1 n)
  show ?case
  proof (cases "n < 10")
    case True
    then show ?thesis
      by (simp add: format_decimal.simps [of n] digit_char_props)
  next
    case False
    have d: "n mod 10 < 10" by simp
    from False 1 have "digits_value (format_decimal (n div 10)) 0 = Some (n div 10)"
      by simp
    with False show ?thesis
      by (simp add: format_decimal.simps [of n] digits_value_append digit_char_props [OF d])
  qed
qed

lemma format_decimal_head:
  "\<exists>c cs. format_decimal n = c # cs \<and> is_digit c \<and> c \<noteq> CHR ''-'' \<and> c \<noteq> CHR ''+''"
proof (induction n rule: format_decimal.induct)
  case (1 n)
  show ?case
  proof (cases "n < 10")
    case True
    then show ?thesis
      by (simp add: format_decimal.simps [of n] digit_char_props)
  next
    case False
    with 1 obtain c cs where "format_decimal (n div 10) = c # cs"
      and "is_digit c" and "c \<noteq> CHR ''-''" and "c \<noteq> CHR ''+''"
      by blast
    with False show ?thesis
      by (simp add: format_decimal.simps [of n])
  qed
qed

lemma ParseUint_format_decimal:
  "n < 2 ^ 64 \<Longrightarrow> strconv_ParseUint (format_decimal n) = Inr n"
  using format_decimal_head [of n]
  by (auto simp: strconv_ParseUint_def digits_value_format_decimal)

lemma ParseInt_format_decimal:
  assumes "n < 2 ^ 63"
  shows "strconv_ParseInt (format_decimal n) = Inr (word_of_int (int n))"
proof -
  obtain c cs where f: "format_decimal n = c # cs" and c: "c \<noteq> CHR ''-''" "c \<noteq> CHR ''+''"
    using format_decimal_head [of n] by blast
  from assms have "n < 2 ^ 64"
    by simp
  then have "strconv_ParseUint (c # cs) = Inr n"
    using ParseUint_format_decimal [of n] f by simp
  with assms c show ?thesis
    by (simp add: strconv_ParseInt_def f)
qed

lemma ParseInt_minus_format_decimal:
  assumes "n \<le> 2 ^ 63"
  shows "strconv_ParseInt (CHR ''-'' # format_decimal n) = Inr (word_of_int (- int n))"
proof -
  from assms have "n < 2 ^ 64"
    by simp
  then have "strconv_ParseUint (format_decimal n) = Inr n"
    by (rule ParseUint_format_decimal)
  with assms show ?thesis
    by (simp add: strconv_ParseInt_def)
qed

lemma Itoa_of_nat:
  assumes "n < 2 ^ 63"
  shows "strconv_Itoa (word_of_int (int n)) = format_decimal n"
proof -
  have "int n < 2 ^ 63"
    using assms by (simp flip: of_nat_less_iff)
  have "sint (word_of_int (int n) :: 64 word) = signed_take_bit (LENGTH(64) - 1) (int n)"
    by (rule sint_sbintrunc')
  also have "\<dots> = int n"
    by (rule signed_take_bit_int_eq_self) (use \<open>int n < 2 ^ 63\<close> in simp_all)
  finally have "sint (word_of_int (int n) :: 64 word) = int n" .
  then show ?thesis
    by (simp add: strconv_Itoa_def)
qed

lemma ParseInt_Itoa: "strconv_ParseInt (strconv_Itoa i) = Inr i"
proof (cases "sint i < 0")
  case True
  have "- (2 ^ 63) \<le> sint i"
    using sint_ge [of i] by simp
  then have "nat (- sint i) \<le> 2 ^ 63"
    by simp
  then have "strconv_ParseInt (CHR ''-'' # format_decimal (nat (- sint i)))
               = Inr (word_of_int (- int (nat (- sint i))))"
    by (rule ParseInt_minus_format_decimal)
  with True show ?thesis
    by (simp add: strconv_Itoa_def)
next
  case False
  have "sint i < 2 ^ 63"
    using sint_lt [of i] by simp
  with False have "nat (sint i) < 2 ^ 63"
    by simp
  then have "strconv_ParseInt (format_decimal (nat (sint i)))
               = Inr (word_of_int (int (nat (sint i))))"
    by (rule ParseInt_format_decimal)
  with False show ?thesis
    by (simp add: strconv_Itoa_def)
qed

section \<open>Properties that depend on the JSON decoder\<close>

lemma received_append_msgs: "received (map Recv_msg reqs @ evs) = reqs @ received evs"
  by (induction reqs) simp_all

lemma decision_chunk: "decision um (response_body_callback c False) = chunk_decision"
  by (simp add: decision_def response_body_callback_def chunk_decision_def empty_BodyResponse_def)

text \<open>
  Claim C3, as amended. When a response body comes in several response-body
  callbacks, each callback before the last is answered with the empty body response
  whatever its bytes, which are then dropped: the handler has no accumulator. The
  decision for the last callback is the one its own bytes \<open>b\<close> give, whatever the
  chunks \<open>cs\<close> before it.
\<close>

theorem C3_last_chunk_only:
  "sent (Process um (map (\<lambda>c. Recv_msg (response_body_callback c False)) cs
                      @ [Recv_msg (response_body_callback b True)]) ss)
     = replicate (length cs) chunk_decision @ [decision um (response_body_callback b True)]"
proof -
  have "map (\<lambda>c. Recv_msg (response_body_callback c False)) cs
          = map Recv_msg (map (\<lambda>c. response_body_callback c False) cs)"
    by simp
  then have "received (map (\<lambda>c. Recv_msg (response_body_callback c False)) cs
               @ [Recv_msg (response_body_callback b True)])
          = map (\<lambda>c. response_body_callback c False) cs @ [response_body_callback b True]"
    by (simp only: received_append_msgs) simp
  then show ?thesis
    by (simp add: sent_Process decision_chunk comp_def map_replicate_const)
qed

lemma chunk_2_parse: "json_parse chunk_2 = None"
  by (simp add: chunk_2_def scan_eval)

lemma chunks_join: "chunk_1 @ chunk_2 = scenario_A_body"
  by (simp add: chunk_1_def chunk_2_def scenario_A_body_def)

text \<open>
  Claim C3 as stated fails. With the body of scenario A split in two chunks, the
  decision at end-of-stream carries no header, because the second chunk alone is not
  a JSON text; decoding the concatenation would have given the three headers.
\<close>

theorem C3_concatenation_counterexample:
  "header_values (last (sent (Process json_Unmarshal
       [Recv_msg (response_body_callback chunk_1 False),
        Recv_msg (response_body_callback chunk_2 True)] []))) = []
   \<and> header_values (decision json_Unmarshal (response_body_callback (chunk_1 @ chunk_2) True))
       = [Some ''5'', Some ''15'', Some ''10'']"
proof -
  have "decision json_Unmarshal (response_body_callback chunk_2 True) = chunk_decision"
    by (simp add: decision_def response_body_callback_def json_Unmarshal_def chunk_2_parse
          chunk_decision_def empty_BodyResponse_def)
  moreover have "sent (Process json_Unmarshal
       [Recv_msg (response_body_callback chunk_1 False),
        Recv_msg (response_body_callback chunk_2 True)] [])
      = [decision json_Unmarshal (response_body_callback chunk_1 False),
         decision json_Unmarshal (response_body_callback chunk_2 True)]"
    by (simp only: sent_Process received.simps list.map)
  ultimately have "header_values (last (sent (Process json_Unmarshal
       [Recv_msg (response_body_callback chunk_1 False),
        Recv_msg (response_body_callback chunk_2 True)] []))) = []"
    by (simp add: header_values_def response_mutation_def chunk_decision_def)
  moreover have "header_values (decision json_Unmarshal
        (response_body_callback (chunk_1 @ chunk_2) True)) = [Some ''5'', Some ''15'', Some ''10'']"
    by (simp add: chunks_join scenario_A_decision header_values_def response_mutation_def)
  ultimately show ?thesis by simp
qed

lemma negative_parse:
  "json_parse negative_body =
     Some (JObject [(''usage'', JObject [(''prompt_tokens'', JNumber ''-5''),
       (''total_tokens'', JNumber ''15''), (''completion_tokens'', JNumber ''10'')])])"
  by (simp add: negative_body_def scan_eval)

lemma negative_Unmarshal:
  "json_Unmarshal negative_body zero_openAIResp =
     (None, \<lparr>Usage = \<lparr>PromptTokens = - 5, TotalTokens = 15, CompletionTokens = 10\<rparr>\<rparr>)"
  unfolding json_Unmarshal_def negative_parse
  by (simp add: store_eval is_digit_def byte_def)

lemma Itoa_minus_5: "strconv_Itoa (- 5) = ''-5''"
  by (simp add: show_eval)

text \<open>
  Claim C8 as stated fails. The decoder reports success on a body whose prompt count
  is \<open>-5\<close>, and the first header value is then \<open>-5\<close>, which is not the
  decimal numeral of a non-negative integer.
\<close>

theorem C8_negative_counterexample:
  "fst (json_Unmarshal negative_body zero_openAIResp) = None
   \<and> header_values (decision json_Unmarshal (response_body_callback negative_body True))
       = [Some ''-5'', Some ''15'', Some ''10'']
   \<and> \<not> all_digits ''-5''"
  by (simp add: decision_def response_body_callback_def negative_Unmarshal header_values_def
        response_mutation_def usage_headers_def Itoa_minus_5 all_digits_def is_digit_def byte_def)
     (simp add: show_eval)

text \<open>
  Claim C8, as amended. When the decoder reports success, the three header values
  are, in the order prompt, total, completion, the \<^verbatim>\<open>strconv.Itoa\<close> renderings of
  the three fields of the usage record. Each is the decimal numeral of a signed
  64-bit integer, with a minus sign when negative: \<^verbatim>\<open>strconv.ParseInt\<close> reads it
  back as the field's value.
\<close>

theorem C8_signed_decimal_values:
  assumes "um body zero_openAIResp = (None, r)"
  shows "header_values (decision um (response_body_callback body True)) =
           [Some (strconv_Itoa (PromptTokens (Usage r))),
            Some (strconv_Itoa (TotalTokens (Usage r))),
            Some (strconv_Itoa (CompletionTokens (Usage r)))]
         \<and> strconv_ParseInt (strconv_Itoa (PromptTokens (Usage r))) = Inr (PromptTokens (Usage r))
         \<and> strconv_ParseInt (strconv_Itoa (TotalTokens (Usage r))) = Inr (TotalTokens (Usage r))
         \<and> strconv_ParseInt (strconv_Itoa (CompletionTokens (Usage r)))
             = Inr (CompletionTokens (Usage r))"
  using assms
  by (simp add: decision_def response_body_callback_def header_values_def response_mutation_def
        usage_headers_def ParseInt_Itoa)

text \<open>
  The same at the body with the negative count.
\<close>

theorem C8_signed_decimal_values_witness:
  "json_Unmarshal negative_body zero_openAIResp =
     (None, \<lparr>Usage = \<lparr>PromptTokens = - 5, TotalTokens = 15, CompletionTokens = 10\<rparr>\<rparr>)
   \<and> header_values (decision json_Unmarshal (response_body_callback negative_body True)) =
       [Some (strconv_Itoa (- 5)), Some (strconv_Itoa 15), Some (strconv_Itoa 10)]
   \<and> strconv_ParseInt (strconv_Itoa (- 5)) = Inr (- 5)"
  using C8_signed_decimal_values [of json_Unmarshal negative_body, OF negative_Unmarshal]
    negative_Unmarshal by simp

lemma fold_unrelated:
  "list_all unrelated ms \<Longrightarrow> fold store_openAIResp_member ms st = st"
proof (induction ms)
  case Nil
  show ?case by simp
next
  case (Cons m ms)
  obtain k v where m: "m = (k, v)" by (cases m)
  obtain r saved where st: "st = (r, saved)" by (cases st)
  from Cons.prems have "lookup_field [''usage''] k = None"
    by (simp add: unrelated_def m)
  then have "store_openAIResp_member m st = st"
    by (simp add: store_openAIResp_member_def m st)
  with Cons show ?case by simp
qed

lemma store_usage_object:
  assumes "P < 2 ^ 63" and "T < 2 ^ 63" and "C < 2 ^ 63"
  shows "store_Usage (usage_object P T C) (u, None) =
           (\<lparr>PromptTokens = word_of_int (int P), TotalTokens = word_of_int (int T),
             CompletionTokens = word_of_int (int C)\<rparr>, None)"
proof -
  have f: "lookup_field Usage_fields ''prompt_tokens'' = Some ''prompt_tokens''"
    "lookup_field Usage_fields ''total_tokens'' = Some ''total_tokens''"
    "lookup_field Usage_fields ''completion_tokens'' = Some ''completion_tokens''"
    by (simp_all add: lookup_field_def Usage_fields_def)
  note p = ParseInt_format_decimal [OF assms(1)] ParseInt_format_decimal [OF assms(2)]
    ParseInt_format_decimal [OF assms(3)]
  show ?thesis
    by (simp add: store_Usage_def usage_object_def store_Usage_member_def f store_int_def p)
qed

lemma store_usage_member:
  assumes "P < 2 ^ 63" and "T < 2 ^ 63" and "C < 2 ^ 63"
  shows "store_openAIResp_member (''usage'', usage_object P T C) (r, None) =
           (\<lparr>Usage = \<lparr>PromptTokens = word_of_int (int P), TotalTokens = word_of_int (int T),
             CompletionTokens = word_of_int (int C)\<rparr>\<rparr>, None)"
proof -
  have "lookup_field [''usage''] ''usage'' = Some ''usage''"
    by (simp add: lookup_field_def)
  then show ?thesis
    by (simp add: store_openAIResp_member_def store_usage_object [OF assms])
qed

lemma usage_headers_of_parse:
  assumes "json_parse body = Some (JObject (pre @ [(''usage'', usage_object P T C)] @ post))"
    and "list_all unrelated (pre @ post)"
    and "P < 2 ^ 63" and "T < 2 ^ 63" and "C < 2 ^ 63"
  shows "response_mutation (decision json_Unmarshal (response_body_callback body True)) =
           Some (usage_mutation (format_decimal P) (format_decimal T) (format_decimal C))"
proof -
  from assms(2) have pre: "list_all unrelated pre" and post: "list_all unrelated post"
    by simp_all
  have "store_openAIResp (JObject (pre @ [(''usage'', usage_object P T C)] @ post))
          (zero_openAIResp, None)
        = (\<lparr>Usage = \<lparr>PromptTokens = word_of_int (int P), TotalTokens = word_of_int (int T),
             CompletionTokens = word_of_int (int C)\<rparr>\<rparr>, None)"
    by (simp add: store_openAIResp_def fold_unrelated [OF pre] fold_unrelated [OF post]
          store_usage_member [OF assms(3-5)])
  with assms(1) have "json_Unmarshal body zero_openAIResp
        = (None, \<lparr>Usage = \<lparr>PromptTokens = word_of_int (int P),
             TotalTokens = word_of_int (int T), CompletionTokens = word_of_int (int C)\<rparr>\<rparr>)"
    by (simp add: json_Unmarshal_def)
  then show ?thesis
    using Itoa_of_nat [OF assms(3)] Itoa_of_nat [OF assms(4)] Itoa_of_nat [OF assms(5)]
    by (simp add: decision_def response_body_callback_def response_mutation_def
          usage_headers_def usage_mutation_def)
qed


lemma format_decimal_examples:
  "format_decimal 0 = ''0''" "format_decimal 5 = ''5''" "format_decimal 15 = ''15''"
  "format_decimal 10 = ''10''"
  "format_decimal 9223372036854775808 = ''9223372036854775808''"
  by (simp_all add: format_decimal.simps digit_char_def)

lemma unrelated_examples:
  "unrelated (''id'', v)" "unrelated (''model'', v)"
  by (simp_all add: unrelated_def lookup_field_def to_upper_def)

lemma extra_fields_parse:
  "json_parse extra_fields_body =
     Some (JObject ([(''id'', JString ''x'')] @ [(''usage'', usage_object 5 15 10)]
                      @ [(''model'', JString ''llm'')]))"
  by (simp add: extra_fields_body_def scan_eval usage_object_def format_decimal_examples)

lemma overflow_parse:
  "json_parse overflow_body =
     Some (JObject ([] @ [(''usage'', usage_object 9223372036854775808 15 10)] @ []))"
  by (simp add: overflow_body_def scan_eval usage_object_def format_decimal_examples)

text \<open>
  Claim C1 as stated fails for a count that does not fit the \<^verbatim>\<open>int\<close> field: with
  \<open>P = 2\<^sup>6\<^sup>3\<close> the body is valid JSON of the stated form, the decoder reports a
  type error for the number, and the decision carries no header.
\<close>

theorem C1_overflow_counterexample:
  "json_parse overflow_body =
     Some (JObject ([] @ [(''usage'', usage_object 9223372036854775808 15 10)] @ []))
   \<and> response_mutation (decision json_Unmarshal (response_body_callback overflow_body True))
       = None"
proof -
  have "fst (json_Unmarshal overflow_body zero_openAIResp)
          = Some (UnmarshalTypeError ''number 9223372036854775808'')"
    unfolding json_Unmarshal_def overflow_parse
    by (simp add: store_eval usage_object_def format_decimal_examples is_digit_def byte_def)
  then have "response_mutation (decision json_Unmarshal
          (response_body_callback overflow_body True)) = None"
    by (cases "json_Unmarshal overflow_body zero_openAIResp")
       (simp add: decision_def response_body_callback_def response_mutation_def
          empty_BodyResponse_def)
  with overflow_parse show ?thesis by simp
qed

lemma no_usage_parse: "json_parse no_usage_body = Some (JObject [(''id'', JString ''x'')])"
  by (simp add: no_usage_body_def scan_eval)

lemma Itoa_0: "strconv_Itoa 0 = ''0''"
  by (simp add: strconv_Itoa_def format_decimal_examples)

lemma no_usage_member_mutation:
  assumes "json_parse body = Some (JObject ms)" and "list_all unrelated ms"
  shows "response_mutation (decision json_Unmarshal (response_body_callback body True))
           = Some (usage_mutation ''0'' ''0'' ''0'')"
proof -
  have "json_Unmarshal body zero_openAIResp = (None, zero_openAIResp)"
    by (simp add: json_Unmarshal_def assms(1) store_openAIResp_def fold_unrelated [OF assms(2)])
  then show ?thesis
    by (simp add: decision_def response_body_callback_def response_mutation_def
          usage_headers_def usage_mutation_def zero_openAIResp_def Itoa_0)
qed

text \<open>
  Claim C2 as stated fails for valid JSON without a \<^verbatim>\<open>usage\<close> member: decoding
  \<^verbatim>\<open>{"id":"x"}\<close> succeeds and leaves the struct at its zero value, so the decision
  sets the three headers to \<open>0\<close>.
\<close>

theorem C2_missing_usage_counterexample:
  "json_parse no_usage_body = Some (JObject [(''id'', JString ''x'')])
   \<and> unrelated (''id'', JString ''x'')
   \<and> header_values (decision json_Unmarshal (response_body_callback no_usage_body True))
       = [Some ''0'', Some ''0'', Some ''0'']"
proof -
  have "list_all unrelated [(''id'', JString ''x'')]"
    by (simp add: unrelated_examples)
  from no_usage_member_mutation [OF no_usage_parse this]
  have "header_values (decision json_Unmarshal (response_body_callback no_usage_body True))
       = [Some ''0'', Some ''0'', Some ''0'']"
    by (simp add: header_values_def usage_mutation_def)
  with no_usage_parse show ?thesis
    by (simp add: unrelated_examples)
qed

text \<open>
  Claim C2, as amended. At end-of-stream, a body that is not a JSON text gets the
  empty body response, and the failure is logged. A body that is a JSON object with no
  member selecting \<^verbatim>\<open>usage\<close> decodes without error, and the decision sets the three
  headers to \<open>0\<close>. In both cases, and for any body, the session goes on: the
  callbacks that follow are answered, and the session ends as the rest of the stream
  makes it end.
\<close>

theorem C2_parse_failure_and_missing_usage:
  "(json_parse body = None \<longrightarrow>
      process_request json_Unmarshal (response_body_callback body True)
        = (chunk_decision, [Log_unmarshal_failed SyntaxError]))
   \<and> (json_parse body = Some (JObject ms) \<and> list_all unrelated ms \<longrightarrow>
        response_mutation (decision json_Unmarshal (response_body_callback body True))
          = Some (usage_mutation ''0'' ''0'' ''0''))
   \<and> sent (Process json_Unmarshal (Recv_msg (response_body_callback body True) # evs) ss)
       = decision json_Unmarshal (response_body_callback body True)
           # map (decision json_Unmarshal) (received evs)
   \<and> outcome (Process json_Unmarshal (Recv_msg (response_body_callback body True) # evs) ss)
       = outcome (Process json_Unmarshal evs (tl ss))"
proof -
  have "json_parse body = None \<longrightarrow>
      process_request json_Unmarshal (response_body_callback body True)
        = (chunk_decision, [Log_unmarshal_failed SyntaxError])"
    by (simp add: response_body_callback_def json_Unmarshal_def chunk_decision_def
          empty_BodyResponse_def)
  moreover have "json_parse body = Some (JObject ms) \<and> list_all unrelated ms \<longrightarrow>
        response_mutation (decision json_Unmarshal (response_body_callback body True))
          = Some (usage_mutation ''0'' ''0'' ''0'')"
    using no_usage_member_mutation by blast
  moreover have "sent (Process json_Unmarshal
          (Recv_msg (response_body_callback body True) # evs) ss)
       = decision json_Unmarshal (response_body_callback body True)
           # map (decision json_Unmarshal) (received evs)"
    by (simp only: sent_Process received.simps list.map)
  moreover have "outcome (Process json_Unmarshal
          (Recv_msg (response_body_callback body True) # evs) ss)
       = outcome (Process json_Unmarshal evs (tl ss))"
    by (simp only: outcome_Process first_stop.simps)
  ultimately show ?thesis by blast
qed

text \<open>
  The same at a body that is malformed (the second chunk of scenario C) and at
  \<^verbatim>\<open>{"id":"x"}\<close>.
\<close>

theorem C2_parse_failure_and_missing_usage_witness:
  "json_parse chunk_2 = None
   \<and> process_request json_Unmarshal (response_body_callback chunk_2 True)
        = (chunk_decision, [Log_unmarshal_failed SyntaxError])
   \<and> json_parse no_usage_body = Some (JObject [(''id'', JString ''x'')])
   \<and> list_all unrelated [(''id'', JString ''x'')]
   \<and> response_mutation (decision json_Unmarshal (response_body_callback no_usage_body True))
        = Some (usage_mutation ''0'' ''0'' ''0'')
   \<and> outcome (Process json_Unmarshal
        [Recv_msg (response_body_callback chunk_2 True), Recv_msg request_headers_callback] [])
        = Blocked
   \<and> length (sent (Process json_Unmarshal
        [Recv_msg (response_body_callback chunk_2 True), Recv_msg request_headers_callback] []))
        = 2"
proof -
  have u: "list_all unrelated [(''id'', JString ''x'')]"
    by (simp add: unrelated_examples)
  have b: "outcome (Process json_Unmarshal [Recv_msg request_headers_callback] (tl [])) = Blocked"
    by (simp only: outcome_Process first_stop.simps list.sel option.case)
  from C2_parse_failure_and_missing_usage
         [of chunk_2 "[]" "[Recv_msg request_headers_callback]" "[]"]
       C2_parse_failure_and_missing_usage
         [of no_usage_body "[(''id'', JString ''x'')]" "[]" "[]"]
       chunk_2_parse no_usage_parse u b
  show ?thesis by (simp del: Process.simps process_request.simps)
qed

lemma format_decimal_shape:
  "\<exists>c cs. format_decimal n = c # cs \<and> is_digit c \<and> list_all is_digit cs
     \<and> (c = CHR ''0'' \<longrightarrow> cs = [])"
proof (induction n rule: format_decimal.induct)
  case (1 n)
  show ?case
  proof (cases "n < 10")
    case True
    then show ?thesis
      by (simp add: format_decimal.simps [of n] digit_char_props)
  next
    case False
    with 1 obtain c cs where f: "format_decimal (n div 10) = c # cs"
      and c: "is_digit c" and cs: "list_all is_digit cs" and z: "c = CHR ''0'' \<longrightarrow> cs = []"
      by blast
    have d: "n mod 10 < 10" by simp
    have "c \<noteq> CHR ''0''"
    proof
      assume "c = CHR ''0''"
      with z f have "format_decimal (n div 10) = ''0''" by simp
      then have "digits_value ''0'' 0 = Some (n div 10)"
        using digits_value_format_decimal [of "n div 10"] by simp
      then have "n div 10 = 0"
        by (simp add: is_digit_def byte_def)
      with False show False by simp
    qed
    with False f c cs show ?thesis
      by (simp add: format_decimal.simps [of n] digit_char_props [OF d])
  qed
qed

lemma is_digit_not_structural:
  assumes "is_digit c"
  shows "\<not> is_space c" "c \<noteq> CHR ''{''" "c \<noteq> CHR ''}''" "c \<noteq> CHR ''[''" "c \<noteq> CHR '']''"
    "c \<noteq> CHR '':''" "c \<noteq> CHR '',''" "c \<noteq> CHR 0x22" "c \<noteq> CHR ''-''"
  using assms by (auto simp: is_digit_def is_space_def byte_def)

lemma count_digits_prefix:
  "list_all is_digit cs \<Longrightarrow> \<not> is_digit r \<Longrightarrow> count_digits (cs @ r # rs) = length cs"
  by (induction cs) (simp_all add: count_digits_def)

lemma tokenize_number:
  assumes c: "is_digit c" and cs: "list_all is_digit cs" and z: "c = CHR ''0'' \<longrightarrow> cs = []"
    and r: "\<not> is_digit r" "r \<noteq> CHR ''.''" "\<not> is_exp_mark r"
  shows "tokenize (c # cs @ r # rs) = cons_token (T_number (c # cs)) (tokenize (r # rs))"
proof -
  have fr: "scan_fraction (r # rs) = Some 0"
    using r by (simp add: scan_fraction_def)
  have "scan_integer c (cs @ r # rs) = Some (length cs)"
  proof (cases "c = CHR ''0''")
    case True
    with z fr show ?thesis by (simp add: scan_integer_def)
  next
    case False
    then show ?thesis
      using fr by (simp add: scan_integer_def count_digits_prefix [OF cs r(1)])
  qed
  then have "scan_number c (cs @ r # rs) = Some (length cs)"
    using is_digit_not_structural(9) [OF c] by (simp add: scan_number_def)
  then show ?thesis
    using c is_digit_not_structural [OF c] by simp
qed


lemma tokenize_format_decimal:
  assumes "\<not> is_digit r" and "r \<noteq> CHR ''.''" and "\<not> is_exp_mark r"
  shows "tokenize (format_decimal n @ r # rs)
           = cons_token (T_number (format_decimal n)) (tokenize (r # rs))"
proof -
  obtain c cs where f: "format_decimal n = c # cs"
    and c: "is_digit c" and cs: "list_all is_digit cs" and z: "c = CHR ''0'' \<longrightarrow> cs = []"
    using format_decimal_shape [of n] by blast
  from tokenize_number [OF c cs z assms, of rs] show ?thesis
    by (simp only: f append_Cons)
qed

lemma tokenize_format_decimal_comma:
  "tokenize (format_decimal n @ CHR '','' # rs)
     = cons_token (T_number (format_decimal n)) (tokenize (CHR '','' # rs))"
  by (rule tokenize_format_decimal) (simp_all add: is_digit_def byte_def is_exp_mark_def)

lemma tokenize_format_decimal_brace:
  "tokenize (format_decimal n @ CHR ''}'' # rs)
     = cons_token (T_number (format_decimal n)) (tokenize (CHR ''}'' # rs))"
  by (rule tokenize_format_decimal) (simp_all add: is_digit_def byte_def is_exp_mark_def)

lemma canonical_body_parse:
  "json_parse (canonical_body P T C) = Some (JObject ([] @ [(''usage'', usage_object P T C)] @ []))"
  by (simp add: canonical_body_def tokenize_format_decimal_comma tokenize_format_decimal_brace
        scan_eval usage_object_def)

text \<open>
  Claim C1, as amended. Let \<open>P\<close>, \<open>T\<close> and \<open>C\<close> be below \<open>2\<^sup>6\<^sup>3\<close>, the
  range of the \<^verbatim>\<open>int\<close> fields. For the body
  \<^verbatim>\<open>{"usage":{"prompt_tokens":P,"total_tokens":T,"completion_tokens":C}}\<close> at
  end-of-stream, the decision sets exactly three headers, prompt, total, completion in
  this order, to the decimal numerals of \<open>P\<close>, \<open>T\<close> and \<open>C\<close>. The same holds
  for every body that the scanner accepts as an object with that \<^verbatim>\<open>usage\<close> member
  and any number of unrelated members before and after it.
\<close>

theorem C1_usage_headers:
  assumes "P < 2 ^ 63" and "T < 2 ^ 63" and "C < 2 ^ 63"
  shows "response_mutation
           (decision json_Unmarshal (response_body_callback (canonical_body P T C) True))
           = Some (usage_mutation (format_decimal P) (format_decimal T) (format_decimal C))
         \<and> (json_parse body = Some (JObject (pre @ [(''usage'', usage_object P T C)] @ post))
              \<and> list_all unrelated (pre @ post) \<longrightarrow>
            response_mutation (decision json_Unmarshal (response_body_callback body True))
              = Some (usage_mutation (format_decimal P) (format_decimal T) (format_decimal C)))"
proof -
  have "list_all unrelated ([] @ [])"
    by simp
  from usage_headers_of_parse [OF canonical_body_parse this assms]
  have "response_mutation
           (decision json_Unmarshal (response_body_callback (canonical_body P T C) True))
           = Some (usage_mutation (format_decimal P) (format_decimal T) (format_decimal C))" .
  moreover have "json_parse body = Some (JObject (pre @ [(''usage'', usage_object P T C)] @ post))
              \<and> list_all unrelated (pre @ post) \<longrightarrow>
            response_mutation (decision json_Unmarshal (response_body_callback body True))
              = Some (usage_mutation (format_decimal P) (format_decimal T) (format_decimal C))"
    using usage_headers_of_parse [OF _ _ assms] by blast
  ultimately show ?thesis by blast
qed

text \<open>
  The same at the body of scenario A, and at a body with members \<^verbatim>\<open>id\<close> and
  \<^verbatim>\<open>model\<close> around the usage object.
\<close>

theorem C1_usage_headers_witness:
  "(5::nat) < 2 ^ 63 \<and> (15::nat) < 2 ^ 63 \<and> (10::nat) < 2 ^ 63
   \<and> canonical_body 5 15 10 = scenario_A_body
   \<and> response_mutation (decision json_Unmarshal (response_body_callback scenario_A_body True))
       = Some (usage_mutation ''5'' ''15'' ''10'')
   \<and> json_parse extra_fields_body =
       Some (JObject ([(''id'', JString ''x'')] @ [(''usage'', usage_object 5 15 10)]
                      @ [(''model'', JString ''llm'')]))
   \<and> list_all unrelated ([(''id'', JString ''x'')] @ [(''model'', JString ''llm'')])
   \<and> response_mutation (decision json_Unmarshal (response_body_callback extra_fields_body True))
       = Some (usage_mutation ''5'' ''15'' ''10'')"
proof -
  have u: "list_all unrelated ([(''id'', JString ''x'')] @ [(''model'', JString ''llm'')])"
    by (simp add: unrelated_examples)
  have p: "(5::nat) < 2 ^ 63" and t: "(15::nat) < 2 ^ 63" and c: "(10::nat) < 2 ^ 63"
    by simp_all
  have b: "canonical_body 5 15 10 = scenario_A_body"
    by (simp add: canonical_body_def scenario_A_body_def format_decimal_examples)
  from C1_usage_headers [OF p t c, of extra_fields_body "[(''id'', JString ''x'')]"
         "[(''model'', JString ''llm'')]"] extra_fields_parse u b
  show ?thesis by (simp add: format_decimal_examples)
qed

end
